theory Spec2Isabelle
  imports Main "HOL-Library.Sublist" "HOL-Library.AList" "HOL-Library.Multiset"
begin

section \<open>Values, errors and the interpreter's library\<close>

text \<open>
  The development embeds the query functions of \<^verbatim>\<open>src/server.py\<close>:
  \<^verbatim>\<open>query_messages\<close>, \<^verbatim>\<open>get_new_members\<close> and the two branches of
  \<^verbatim>\<open>call_tool\<close> that use \<^verbatim>\<open>query_messages\<close>.

  Tool arguments arrive as decoded JSON, so a filter value is dynamically typed. The
  scalar values are modelled; the code treats a value of the wrong type by raising, and
  each such raise is a branch of the model.
\<close>

datatype pyval = PNone | PBool bool | PInt int | PStr string

text \<open>
  The exceptions that the modelled code can raise. \<open>Unsupported\<close> is not an exception of
  the interpreter: the library instance below answers it for an input outside the fragment
  it covers.
\<close>

datatype error = ValueError | TypeError | AttributeError | OverflowError | OSError
  | Unsupported

text \<open>
  A \<^verbatim>\<open>datetime\<close> is naive (no zone) or aware. \<^verbatim>\<open>datetime.fromtimestamp(ts)\<close>
  without a zone is always naive; \<^verbatim>\<open>datetime.fromisoformat\<close> is aware when the string
  carries an offset. Naive values are ordered by their wall-clock reading \<open>'a\<close>; ordering a
  naive value against an aware one raises \<^verbatim>\<open>TypeError\<close>.
\<close>

datatype 'a datetime = Naive 'a | Aware 'a

fun dt_less :: "('a::linorder) datetime \<Rightarrow> 'a datetime \<Rightarrow> error + bool" where
  "dt_less (Naive a) (Naive b) = Inr (a < b)"
| "dt_less (Aware a) (Aware b) = Inr (a < b)"
| "dt_less (Naive a) (Aware b) = Inl TypeError"
| "dt_less (Aware a) (Naive b) = Inl TypeError"

text \<open>
  A string of the interpreter is a sequence of Unicode characters. The model writes it as
  the list of the bytes of its UTF-8 encoding, so that every string has one
  representation; a string of ASCII characters is the list of its characters.

  The four library functions the code calls are not part of the repository; they are
  parameters of the model. \<open>'f\<close> is the type of floats, \<open>'a\<close> the wall-clock reading of a
  naive date-time.
  \<^item> \<open>py_float\<close> is \<^verbatim>\<open>float(s)\<close> on a string;
  \<^item> \<open>fromtimestamp\<close> is \<^verbatim>\<open>datetime.fromtimestamp(x)\<close> (local time, naive);
  \<^item> \<open>fromisoformat\<close> is \<^verbatim>\<open>datetime.fromisoformat(s)\<close> on a string;
  \<^item> \<open>str_lower\<close> is \<^verbatim>\<open>s.lower()\<close> on a string, which lower-cases every cased
    character of Unicode and never raises.
\<close>

record ('f, 'a) pylib =
  py_float :: "string \<Rightarrow> error + 'f"
  fromtimestamp :: "'f \<Rightarrow> error + 'a"
  fromisoformat :: "string \<Rightarrow> error + 'a datetime"
  str_lower :: "string \<Rightarrow> string"

text \<open>\<^verbatim>\<open>datetime.fromisoformat(v)\<close> on a dynamically typed value: only a string is accepted.\<close>

fun fromisoformat_val :: "('f, 'a) pylib \<Rightarrow> pyval \<Rightarrow> error + 'a datetime" where
  "fromisoformat_val lib (PStr s) = fromisoformat lib s"
| "fromisoformat_val lib v = Inl TypeError"

subsection \<open>Strings\<close>

text \<open>
  \<^verbatim>\<open>a in b\<close> on two strings: \<open>a\<close> occurs in \<open>b\<close> as a contiguous run. In UTF-8 no
  character's encoding occurs inside or across the encodings of other characters, so a
  run of bytes is a run of characters.
\<close>

fun str_in :: "string \<Rightarrow> string \<Rightarrow> bool" where
  "str_in a [] = (a = [])"
| "str_in a (c # cs) = (prefix a (c # cs) \<or> str_in a cs)"

text \<open>\<^verbatim>\<open>v in s\<close> with a dynamically typed left operand: a non-string raises.\<close>

fun val_in_str :: "pyval \<Rightarrow> string \<Rightarrow> error + bool" where
  "val_in_str (PStr a) s = Inr (str_in a s)"
| "val_in_str v s = Inl TypeError"

text \<open>\<^verbatim>\<open>v.lower()\<close>: only a string has the method.\<close>

fun val_lower :: "('f, 'a) pylib \<Rightarrow> pyval \<Rightarrow> error + string" where
  "val_lower lib (PStr a) = Inr (str_lower lib a)"
| "val_lower lib v = Inl AttributeError"

text \<open>
  \<^verbatim>\<open>s[:n]\<close> on a string: its first \<open>n\<close> characters. In UTF-8 a character is a leading
  byte and the continuation bytes after it, which are the bytes from 128 to 191.
\<close>

definition is_continuation :: "char \<Rightarrow> bool" where
  "is_continuation c = (128 \<le> (of_char c :: nat) \<and> (of_char c :: nat) < 192)"

fun str_take :: "nat \<Rightarrow> string \<Rightarrow> string" where
  "str_take n [] = []"
| "str_take n (c # cs) =
     (if is_continuation c then c # str_take n cs
      else (case n of 0 \<Rightarrow> [] | Suc k \<Rightarrow> c # str_take k cs))"

text \<open>
  \<^verbatim>\<open>v != b\<close> for a boolean \<open>b\<close>. It never raises: a boolean equals a boolean of the
  same truth value and the integer 0 or 1 of the same value, and nothing else modelled.
\<close>

fun val_ne_bool :: "pyval \<Rightarrow> bool \<Rightarrow> bool" where
  "val_ne_bool (PBool c) b = (c \<noteq> b)"
| "val_ne_bool (PInt n) b = (n \<noteq> (if b then 1 else 0))"
| "val_ne_bool PNone b = True"
| "val_ne_bool (PStr s) b = True"

text \<open>Truthiness of a value, as \<^verbatim>\<open>if v:\<close> reads it.\<close>

fun truthy :: "pyval \<Rightarrow> bool" where
  "truthy PNone = False"
| "truthy (PBool b) = b"
| "truthy (PInt n) = (n \<noteq> 0)"
| "truthy (PStr s) = (s \<noteq> [])"

section \<open>The data model\<close>

text \<open>
  A message and a member are JSON objects whose fields may be missing; the code reads them
  with \<^verbatim>\<open>.get(key, default)\<close>. A present field has the type the data model gives it.
\<close>

record message =
  channel_name :: "string option"
  channel_id :: "string option"
  user_name :: "string option"
  msg_text :: "string option"
  ts :: "string option"
  reply_count :: "int option"

record member =
  member_name :: "string option"
  member_text :: "string option"
  member_permalink :: "string option"
  member_ts :: "string option"

record dataset =
  all_messages :: "message list option"
  new_members :: "member list option"

text \<open>\<^verbatim>\<open>d.get(key, default)\<close>.\<close>

definition get_or :: "'v option \<Rightarrow> 'v \<Rightarrow> 'v" where
  "get_or v d = (case v of None \<Rightarrow> d | Some x \<Rightarrow> x)"

text \<open>The keyword arguments \<^verbatim>\<open>**filters\<close>: a dictionary from names to values.\<close>

type_synonym filters = "string \<rightharpoonup> pyval"

section \<open>\<^verbatim>\<open>query_messages\<close>\<close>

text \<open>
  The body of the loop is split at its six filters. Each part answers \<open>Inr True\<close> when
  the message goes on to the next filter, \<open>Inr False\<close> for \<^verbatim>\<open>continue\<close>, and
  \<open>Inl e\<close> when the part raises \<open>e\<close>.
\<close>

text \<open>
  Sequencing of two checks of the loop body: the second runs only if the first passes;
  a check that raises or says \<^verbatim>\<open>continue\<close> ends the body.
\<close>

definition and_then :: "error + bool \<Rightarrow> error + bool \<Rightarrow> error + bool" where
  "and_then a b = (case a of Inl e \<Rightarrow> Inl e | Inr False \<Rightarrow> Inr False | Inr True \<Rightarrow> b)"

definition channel_filter :: "filters \<Rightarrow> message \<Rightarrow> error + bool" where
  "channel_filter filters msg =
     (case filters ''channel'' of
        None \<Rightarrow> Inr True
      | Some v \<Rightarrow> val_in_str v (get_or (channel_name msg) ''''))"

text \<open>
  One bound of the date range. \<open>lower_bound\<close> tells a lower bound, where the message is dropped
  when \<^verbatim>\<open>msg_date < from_dt\<close>, from an upper bound, where it is dropped when
  \<^verbatim>\<open>msg_date > to_dt\<close>. The bound is parsed before it is compared.
\<close>

definition date_bound ::
  "('f, 'a::linorder) pylib \<Rightarrow> bool \<Rightarrow> pyval \<Rightarrow> 'a \<Rightarrow> error + bool" where
  "date_bound lib lower_bound v msg_date =
     (case fromisoformat_val lib v of
        Inl e \<Rightarrow> Inl e
      | Inr dt \<Rightarrow>
          (case (if lower_bound then dt_less (Naive msg_date) dt
                 else dt_less dt (Naive msg_date)) of
             Inl e \<Rightarrow> Inl e
           | Inr dropped \<Rightarrow> Inr (\<not> dropped)))"

text \<open>\<^verbatim>\<open>datetime.fromtimestamp(float(r.get("ts", "0")))\<close>.\<close>

definition ts_datetime :: "('f, 'a) pylib \<Rightarrow> string option \<Rightarrow> error + 'a" where
  "ts_datetime lib t =
     (case py_float lib (get_or t ''0'') of
        Inl e \<Rightarrow> Inl e
      | Inr x \<Rightarrow> fromtimestamp lib x)"

definition date_filter ::
  "('f, 'a::linorder) pylib \<Rightarrow> filters \<Rightarrow> message \<Rightarrow> error + bool" where
  "date_filter lib filters msg =
     (if filters ''from_date'' \<noteq> None \<or> filters ''to_date'' \<noteq> None then
        (case ts_datetime lib (ts msg) of
           Inl e \<Rightarrow> Inl e
         | Inr msg_date \<Rightarrow>
             and_then
               (case filters ''from_date'' of
                  None \<Rightarrow> Inr True
                | Some v \<Rightarrow> date_bound lib True v msg_date)
               (case filters ''to_date'' of
                  None \<Rightarrow> Inr True
                | Some v \<Rightarrow> date_bound lib False v msg_date))
      else Inr True)"

text \<open>
  The user and text filters lower-case the message's field first, then the filter value.
\<close>

definition lower_contains :: "('f, 'a) pylib \<Rightarrow> pyval \<Rightarrow> string \<Rightarrow> error + bool" where
  "lower_contains lib v field =
     (let field_l = str_lower lib field in
      case val_lower lib v of
        Inl e \<Rightarrow> Inl e
      | Inr needle \<Rightarrow> Inr (str_in needle field_l))"

definition user_filter :: "('f, 'a) pylib \<Rightarrow> filters \<Rightarrow> message \<Rightarrow> error + bool" where
  "user_filter lib filters msg =
     (case filters ''user'' of
        None \<Rightarrow> Inr True
      | Some v \<Rightarrow> lower_contains lib v (get_or (user_name msg) ''''))"

definition text_filter :: "('f, 'a) pylib \<Rightarrow> filters \<Rightarrow> message \<Rightarrow> error + bool" where
  "text_filter lib filters msg =
     (case filters ''search_text'' of
        None \<Rightarrow> Inr True
      | Some v \<Rightarrow> lower_contains lib v (get_or (msg_text msg) ''''))"

definition replies_filter :: "filters \<Rightarrow> message \<Rightarrow> error + bool" where
  "replies_filter filters msg =
     (case filters ''has_replies'' of
        None \<Rightarrow> Inr True
      | Some v \<Rightarrow>
          (let has_replies = (get_or (reply_count msg) 0 > 0)
           in Inr (\<not> val_ne_bool v has_replies)))"

text \<open>The inline table \<^verbatim>\<open>category_map\<close>.\<close>

definition category_map :: "(string \<times> string) list" where
  "category_map =
     [(''intro'', ''07-intros''),
      (''ask'', ''05-asks''),
      (''discussion'', ''02-discussion''),
      (''news'', ''03-news''),
      (''session'', ''09-00-hemingway-sessions'')]"

definition category_filter :: "('f, 'a) pylib \<Rightarrow> filters \<Rightarrow> message \<Rightarrow> error + bool" where
  "category_filter lib filters msg =
     (case filters ''category'' of
        None \<Rightarrow> Inr True
      | Some v \<Rightarrow>
          (case val_lower lib v of
             Inl e \<Rightarrow> Inl e
           | Inr category \<Rightarrow>
               (let channel = get_or (channel_name msg) '''' in
                case map_of category_map category of
                  None \<Rightarrow> Inr True
                | Some marker \<Rightarrow> Inr (str_in marker channel))))"

definition keep_message ::
  "('f, 'a::linorder) pylib \<Rightarrow> filters \<Rightarrow> message \<Rightarrow> error + bool" where
  "keep_message lib filters msg =
     and_then (channel_filter filters msg)
    (and_then (date_filter lib filters msg)
    (and_then (user_filter lib filters msg)
    (and_then (text_filter lib filters msg)
    (and_then (replies_filter filters msg)
              (category_filter lib filters msg)))))"

text \<open>
  What the loop body does with a message before it parses a date bound: the channel
  filter, the conversion of the message's time stamp and, before the upper bound
  (\<open>upper\<close>), the lower bound if there is one. \<open>Inr True\<close> says that the bound is parsed
  next, \<open>Inr False\<close> that the message was dropped before, \<open>Inl e\<close> that the body raised
  before.
\<close>

definition bound_key :: "bool \<Rightarrow> string" where
  "bound_key upper = (if upper then ''to_date'' else ''from_date'')"

definition before_bound ::
  "('f, 'a::linorder) pylib \<Rightarrow> filters \<Rightarrow> bool \<Rightarrow> message \<Rightarrow> error + bool" where
  "before_bound lib filters upper msg =
     and_then (channel_filter filters msg)
       (case ts_datetime lib (ts msg) of
          Inl e \<Rightarrow> Inl e
        | Inr msg_date \<Rightarrow>
            (if upper then
               (case filters ''from_date'' of
                  None \<Rightarrow> Inr True
                | Some v \<Rightarrow> date_bound lib True v msg_date)
             else Inr True))"

text \<open>
  Both query functions run the same loop: go through the records in order, skip a record
  when the body says \<^verbatim>\<open>continue\<close>, append it to \<open>results\<close> otherwise. A raise in the
  body ends the call.
\<close>

fun collect :: "('r \<Rightarrow> error + bool) \<Rightarrow> 'r list \<Rightarrow> 'r list \<Rightarrow> error + 'r list" where
  "collect body [] results = Inr results"
| "collect body (r # rs) results =
     (case body r of
        Inl e \<Rightarrow> Inl e
      | Inr False \<Rightarrow> collect body rs results
      | Inr True \<Rightarrow> collect body rs (results @ [r]))"

definition query_messages ::
  "('f, 'a::linorder) pylib \<Rightarrow> dataset \<Rightarrow> filters \<Rightarrow> error + message list" where
  "query_messages lib data filters =
     (let messages = get_or (all_messages data) []
      in collect (keep_message lib filters) messages [])"

section \<open>\<^verbatim>\<open>get_new_members\<close>\<close>

definition keep_member ::
  "('f, 'a::linorder) pylib \<Rightarrow> pyval \<Rightarrow> pyval \<Rightarrow> member \<Rightarrow> error + bool" where
  "keep_member lib from_date to_date m =
     (case ts_datetime lib (member_ts m) of
        Inl e \<Rightarrow> Inl e
      | Inr member_date \<Rightarrow>
          and_then
            (if truthy from_date then date_bound lib True from_date member_date
             else Inr True)
            (if truthy to_date then date_bound lib False to_date member_date
             else Inr True))"

definition get_new_members ::
  "('f, 'a::linorder) pylib \<Rightarrow> dataset \<Rightarrow> pyval \<Rightarrow> pyval \<Rightarrow> error + member list" where
  "get_new_members lib data from_date to_date =
     (let members = get_or (new_members data) [] in
      if \<not> truthy from_date \<and> \<not> truthy to_date then Inr members
      else collect (keep_member lib from_date to_date) members [])"

section \<open>\<^verbatim>\<open>call_tool\<close>\<close>

subsection \<open>Channel statistics\<close>

text \<open>
  \<^verbatim>\<open>stats\<close> is a dictionary, which keeps its keys in the order of their first insertion:
  an association list, where \<open>AList.update\<close> overwrites a key in place and appends a new
  one at the end.
\<close>

fun count_channels :: "message list \<Rightarrow> (string \<times> int) list \<Rightarrow> (string \<times> int) list" where
  "count_channels [] stats = stats"
| "count_channels (msg # msgs) stats =
     (let channel = get_or (channel_name msg) ''unknown''
      in count_channels msgs
           (AList.update channel (get_or (map_of stats channel) 0 + 1) stats))"

text \<open>
  \<^verbatim>\<open>sorted(items, key=..., reverse=True)\<close>: a stable sort into descending order of the
  key; items of equal key keep the order they came in.
\<close>

definition sorted_reverse :: "('b \<Rightarrow> int) \<Rightarrow> 'b list \<Rightarrow> 'b list" where
  "sorted_reverse key xs = sort_key (\<lambda>x. - key x) xs"

definition channel_stats :: "message list \<Rightarrow> (string \<times> int) list" where
  "channel_stats messages =
     (let stats = count_channels messages []
      in sorted_reverse snd stats)"

subsection \<open>The projection of a message\<close>

record simplified =
  s_user :: string
  s_channel :: string
  s_text :: string
  s_timestamp :: string
  s_reply_count :: int
  s_permalink :: string

definition simplify :: "message \<Rightarrow> simplified" where
  "simplify msg =
     \<lparr> s_user = get_or (user_name msg) ''Unknown'',
       s_channel = get_or (channel_name msg) '''',
       s_text = str_take 200 (get_or (msg_text msg) ''''),
       s_timestamp = get_or (ts msg) '''',
       s_reply_count = get_or (reply_count msg) 0,
       s_permalink =
         ''https://hemingway-community.slack.com/archives/''
         @ get_or (channel_id msg) ''None''
         @ ''/p'' @ filter (\<lambda>c. c \<noteq> CHR ''.'') (get_or (ts msg) '''') \<rparr>"

text \<open>
  \<^verbatim>\<open>xs[:limit]\<close>. \<^verbatim>\<open>None\<close> keeps the whole list; a negative integer counts from the end;
  a boolean is the integer 0 or 1; a string raises.
\<close>

fun slice_upto :: "pyval \<Rightarrow> 'x list \<Rightarrow> error + 'x list" where
  "slice_upto PNone xs = Inr xs"
| "slice_upto (PInt n) xs =
     Inr (if 0 \<le> n then take (nat n) xs else take (nat (int (length xs) + n)) xs)"
| "slice_upto (PBool b) xs = Inr (take (if b then 1 else 0) xs)"
| "slice_upto (PStr s) xs = Inl TypeError"

subsection \<open>The dispatcher\<close>

text \<open>
  What a call answers. The text payload is the JSON of a value; the model keeps the value.
  \<open>Failed e\<close> is the payload \<^verbatim>\<open>Error: ...\<close> of the \<^verbatim>\<open>except\<close> clause. The branches of the
  dispatcher for the other tool names are outside this development (\<open>Other_tool\<close>).
\<close>

datatype tool_output =
    No_data
  | Messages "simplified list"
  | Stats "(string \<times> int) list"
  | Failed error
  | Other_tool

text \<open>
  \<open>located\<close> is the outcome of \<^verbatim>\<open>get_latest_extraction\<close> and \<^verbatim>\<open>load_slack_data\<close>, which
  read the file system: a raise, no file, or the decoded dataset.

  In the \<^verbatim>\<open>query_messages\<close> branch the arguments are passed on as keywords next to the
  positional \<^verbatim>\<open>data\<close>, so an argument named \<^verbatim>\<open>data\<close> raises \<^verbatim>\<open>TypeError\<close>.
\<close>

definition call_tool ::
  "('f, 'a::linorder) pylib \<Rightarrow> error + dataset option \<Rightarrow> string \<Rightarrow> filters \<Rightarrow> tool_output"
  where
  "call_tool lib located name arguments =
     (case located of
        Inl e \<Rightarrow> Failed e
      | Inr None \<Rightarrow> No_data
      | Inr (Some data) \<Rightarrow>
          if name = ''query_messages'' then
            (let limit = get_or (arguments ''limit'') (PInt 50);
                 arguments = arguments(''limit'' := None)
             in if arguments ''data'' \<noteq> None then Failed TypeError
                else
                  (case query_messages lib data arguments of
                     Inl e \<Rightarrow> Failed e
                   | Inr found \<Rightarrow>
                       (case slice_upto limit found of
                          Inl e \<Rightarrow> Failed e
                        | Inr messages \<Rightarrow> Messages (map simplify messages))))
          else if name = ''get_channel_stats'' then
            (let from_date = get_or (arguments ''from_date'') PNone;
                 to_date = get_or (arguments ''to_date'') PNone
             in case query_messages lib data
                       [''from_date'' \<mapsto> from_date, ''to_date'' \<mapsto> to_date] of
                  Inl e \<Rightarrow> Failed e
                | Inr messages \<Rightarrow> Stats (channel_stats messages))
          else Other_tool)"

section \<open>A library instance\<close>

text \<open>
  The theorems below hold for every library. To run the model on concrete inputs, this
  instance covers a fragment of the interpreter's library on a machine whose local zone is
  UTC: whole-second time stamps written in digits, and dates of the form
  \<^verbatim>\<open>YYYY-MM-DD\<close>. An input outside the fragment answers \<open>Unsupported\<close>. A float is its
  whole number of seconds; the wall-clock reading of a naive date-time is the number of
  microseconds since 1970-01-01 00:00:00. Lower-casing covers the strings of ASCII
  characters: it maps the letters A to Z to a to z and leaves every other byte alone.
\<close>

definition ascii_lower_char :: "char \<Rightarrow> char" where
  "ascii_lower_char c =
     (case map_of (zip ''ABCDEFGHIJKLMNOPQRSTUVWXYZ'' ''abcdefghijklmnopqrstuvwxyz'') c of
        None \<Rightarrow> c
      | Some l \<Rightarrow> l)"

definition ascii_lower :: "string \<Rightarrow> string" where
  "ascii_lower s = map ascii_lower_char s"

definition digit_of :: "char \<Rightarrow> nat option" where
  "digit_of c =
     (let n = (of_char c :: nat) in if 48 \<le> n \<and> n \<le> 57 then Some (n - 48) else None)"

fun digits_val :: "string \<Rightarrow> nat \<Rightarrow> nat option" where
  "digits_val [] acc = Some acc"
| "digits_val (c # cs) acc =
     (case digit_of c of None \<Rightarrow> None | Some d \<Rightarrow> digits_val cs (10 * acc + d))"

definition parse_nat :: "string \<Rightarrow> nat option" where
  "parse_nat s = (if s = [] then None else digits_val s 0)"

definition utc_float :: "string \<Rightarrow> error + int" where
  "utc_float s =
     (case parse_nat s of
        Some n \<Rightarrow> if length s \<le> 15 then Inr (int n) else Inl Unsupported
      | None \<Rightarrow> Inl Unsupported)"

definition utc_fromtimestamp :: "int \<Rightarrow> error + int" where
  "utc_fromtimestamp x =
     (if 0 \<le> x \<and> x \<le> 253402300799 then Inr (x * 1000000) else Inl Unsupported)"

definition is_leap :: "nat \<Rightarrow> bool" where
  "is_leap y = (y mod 4 = 0 \<and> (y mod 100 \<noteq> 0 \<or> y mod 400 = 0))"

definition days_in_month :: "nat \<Rightarrow> nat \<Rightarrow> nat" where
  "days_in_month y m =
     (if m = 2 then (if is_leap y then 29 else 28)
      else if m = 4 \<or> m = 6 \<or> m = 9 \<or> m = 11 then 30 else 31)"

text \<open>Days from 1970-01-01 to the given day of the Gregorian calendar.\<close>

definition days_from_civil :: "nat \<Rightarrow> nat \<Rightarrow> nat \<Rightarrow> int" where
  "days_from_civil y m d =
     (let y' = (if m \<le> 2 then int y - 1 else int y);
          era = y' div 400;
          yoe = y' - era * 400;
          mp = (if m > 2 then int m - 3 else int m + 9);
          doy = (153 * mp + 2) div 5 + int d - 1;
          doe = yoe * 365 + yoe div 4 - yoe div 100 + doy
      in era * 146097 + doe - 719468)"

definition utc_fromisoformat :: "string \<Rightarrow> error + int datetime" where
  "utc_fromisoformat s =
     (if length s = 10 \<and> s ! 4 = CHR ''-'' \<and> s ! 7 = CHR ''-'' then
        (case (parse_nat (take 4 s), parse_nat (take 2 (drop 5 s)), parse_nat (drop 8 s)) of
           (Some y, Some m, Some d) \<Rightarrow>
             if 1 \<le> y \<and> 1 \<le> m \<and> m \<le> 12 \<and> 1 \<le> d \<and> d \<le> days_in_month y m
             then Inr (Naive (days_from_civil y m d * 86400000000))
             else Inl ValueError
         | _ \<Rightarrow> Inl ValueError)
      else if list_all (\<lambda>c. digit_of c = None) s then Inl ValueError
      else Inl Unsupported)"

definition utc_lib :: "(int, int) pylib" where
  "utc_lib =
     \<lparr> py_float = utc_float,
       fromtimestamp = utc_fromtimestamp,
       fromisoformat = utc_fromisoformat,
       str_lower = ascii_lower \<rparr>"

section \<open>Notions of the specification\<close>

text \<open>The names of the seven filters that \<^verbatim>\<open>query_messages\<close> reads.\<close>

definition filter_keys :: "string set" where
  "filter_keys =
     {''channel'', ''from_date'', ''to_date'', ''user'', ''search_text'', ''has_replies'',
      ''category''}"

text \<open>The channel under which the statistics count a message.\<close>

definition stats_channel :: "message \<Rightarrow> string" where
  "stats_channel msg = get_or (channel_name msg) ''unknown''"

text \<open>The distinct elements of a list in the order of their first occurrence.\<close>

fun first_seen :: "'x list \<Rightarrow> 'x list" where
  "first_seen [] = []"
| "first_seen (x # xs) = x # removeAll x (first_seen xs)"

section \<open>Example data\<close>

text \<open>
  Three messages and a member. The time stamps of the first two messages are midnight of
  2024-01-01 and of 2024-01-02 in UTC; the third message has no field but its channel.
\<close>

definition msg_a :: message where
  "msg_a =
     \<lparr> channel_name = Some ''02-discussion'', channel_id = Some ''C02'',
       user_name = Some ''Ada'', msg_text = Some ''Hello World'',
       ts = Some ''1704067200'', reply_count = Some 2 \<rparr>"

definition msg_b :: message where
  "msg_b =
     \<lparr> channel_name = Some ''07-intros'', channel_id = Some ''C07'',
       user_name = Some ''Grace'', msg_text = Some ''Hi, I am new'',
       ts = Some ''1704153600'', reply_count = Some 0 \<rparr>"

definition msg_c :: message where
  "msg_c =
     \<lparr> channel_name = Some ''02-discussion'', channel_id = None,
       user_name = None, msg_text = None, ts = None, reply_count = None \<rparr>"

definition member_x :: member where
  "member_x =
     \<lparr> member_name = Some ''Grace'', member_text = Some ''Hi, I am new'',
       member_permalink = None, member_ts = None \<rparr>"

definition example_data :: dataset where
  "example_data = \<lparr> all_messages = Some [msg_a, msg_b, msg_c], new_members = Some [member_x] \<rparr>"

definition repeated_data :: dataset where
  "repeated_data = \<lparr> all_messages = Some [msg_a, msg_b, msg_a], new_members = None \<rparr>"

definition msg_c_only :: dataset where
  "msg_c_only = \<lparr> all_messages = Some [msg_c], new_members = None \<rparr>"

text \<open>Argument dictionaries used in the examples.\<close>

definition no_filters :: filters where
  "no_filters = Map.empty"

definition bogus_category :: filters where
  "bogus_category = [''category'' \<mapsto> PStr ''Bogus'']"

definition from_1960 :: filters where
  "from_1960 = [''from_date'' \<mapsto> PStr ''1960-01-01'']"

definition to_1960 :: filters where
  "to_1960 = [''to_date'' \<mapsto> PStr ''1960-01-01'']"

definition january_first_to_second :: filters where
  "january_first_to_second =
     [''from_date'' \<mapsto> PStr ''2024-01-01'', ''to_date'' \<mapsto> PStr ''2024-01-02'']"

definition channel_random :: filters where
  "channel_random = [''channel'' \<mapsto> PStr ''random'']"

definition channel_random_bad_from :: filters where
  "channel_random_bad_from =
     [''channel'' \<mapsto> PStr ''random'', ''from_date'' \<mapsto> PStr ''not-a-date'']"

definition bad_from :: filters where
  "bad_from = [''from_date'' \<mapsto> PStr ''not-a-date'']"

definition channel_discussion :: filters where
  "channel_discussion = [''channel'' \<mapsto> PStr ''discussion'']"

definition discussion_bad_from :: filters where
  "discussion_bad_from =
     [''channel'' \<mapsto> PStr ''discussion'', ''from_date'' \<mapsto> PStr ''not-a-date'']"

definition from_second_bad_to :: filters where
  "from_second_bad_to =
     [''from_date'' \<mapsto> PStr ''2024-01-02'', ''to_date'' \<mapsto> PStr ''not-a-date'']"

definition limit_minus_one :: filters where
  "limit_minus_one = [''limit'' \<mapsto> PInt (- 1)]"

definition limit_two :: filters where
  "limit_two = [''limit'' \<mapsto> PInt 2]"

text \<open>The local date-time of a message on the UTC machine, midnight of 1970-01-01 if none.\<close>

definition utc_time :: "message \<Rightarrow> int" where
  "utc_time msg = (case ts_datetime utc_lib (ts msg) of Inl e \<Rightarrow> 0 | Inr t \<Rightarrow> t)"

section \<open>Lemmas\<close>

subsection \<open>Sequencing and the loop\<close>

lemma and_then_simps:
  "and_then (Inl e) b = Inl e"
  "and_then (Inr False) b = Inr False"
  "and_then (Inr True) b = b"
  by (simp_all add: and_then_def)

lemma and_then_True_right: "and_then a (Inr True) = a"
  by (cases a) (auto simp: and_then_def split: bool.splits)

text \<open>The loop depends on its body only at the records it visits.\<close>

lemma collect_cong:
  "(\<And>r. r \<in> set rs \<Longrightarrow> body r = body' r) \<Longrightarrow> collect body rs acc = collect body' rs acc"
proof (induction rs arbitrary: acc)
  case Nil
  show ?case by simp
next
  case (Cons r rs)
  have hd: "body r = body' r" using Cons.prems by simp
  have tl: "collect body rs a = collect body' rs a" for a
    using Cons.IH Cons.prems by simp
  show ?case by (simp add: hd tl split: sum.splits bool.splits)
qed

text \<open>A body that never raises makes the loop a \<open>filter\<close>.\<close>

lemma collect_total:
  "(\<And>r. r \<in> set rs \<Longrightarrow> body r = Inr (P r)) \<Longrightarrow> collect body rs acc = Inr (acc @ filter P rs)"
proof (induction rs arbitrary: acc)
  case Nil
  show ?case by simp
next
  case (Cons r rs)
  have hd: "body r = Inr (P r)" using Cons.prems by simp
  have tl: "collect body rs a = Inr (a @ filter P rs)" for a
    using Cons.IH Cons.prems by simp
  show ?case by (cases "P r") (simp_all add: hd tl)
qed

text \<open>Whatever the body, a loop that returns has appended a subsequence of its input.\<close>

lemma collect_subseq:
  "collect body rs acc = Inr out \<Longrightarrow> \<exists>ys. out = acc @ ys \<and> subseq ys rs"
proof (induction rs arbitrary: acc)
  case Nil
  then show ?case by simp
next
  case (Cons r rs)
  show ?case
  proof (cases "body r")
    case (Inl e)
    with Cons.prems show ?thesis by simp
  next
    case (Inr b)
    show ?thesis
    proof (cases b)
      case True
      with Inr Cons.prems have "collect body rs (acc @ [r]) = Inr out" by simp
      then obtain ys where "out = (acc @ [r]) @ ys" "subseq ys rs"
        using Cons.IH by blast
      then have "out = acc @ (r # ys) \<and> subseq (r # ys) (r # rs)" by simp
      then show ?thesis by blast
    next
      case False
      with Inr Cons.prems have "collect body rs acc = Inr out" by simp
      then obtain ys where "out = acc @ ys" "subseq ys rs"
        using Cons.IH by blast
      then have "out = acc @ ys \<and> subseq ys (r # rs)" by (simp add: list_emb_Cons)
      then show ?thesis by blast
    qed
  qed
qed

text \<open>
  A loop that returns has appended exactly the records that its body kept, each as often
  as it occurs.
\<close>

lemma collect_is_filter:
  "collect body rs acc = Inr out \<Longrightarrow> out = acc @ filter (\<lambda>r. body r = Inr True) rs"
proof (induction rs arbitrary: acc)
  case Nil
  then show ?case by simp
next
  case (Cons r rs)
  show ?case
  proof (cases "body r")
    case (Inl e)
    with Cons.prems show ?thesis by simp
  next
    case (Inr b)
    show ?thesis
    proof (cases b)
      case True
      with Inr Cons.prems have "collect body rs (acc @ [r]) = Inr out" by simp
      then have "out = (acc @ [r]) @ filter (\<lambda>r. body r = Inr True) rs"
        by (rule Cons.IH)
      then show ?thesis using Inr True by simp
    next
      case False
      with Inr Cons.prems have "collect body rs acc = Inr out" by simp
      then have "out = acc @ filter (\<lambda>r. body r = Inr True) rs"
        by (rule Cons.IH)
      then show ?thesis using Inr False by simp
    qed
  qed
qed

lemma count_list_filter:
  "count_list (filter P xs) x = (if P x then count_list xs x else 0)"
  by (induction xs) auto

text \<open>
  A body that, after a first part \<open>b\<close>, can only raise: the loop skips the records that
  \<open>b\<close> drops and raises at the first record that \<open>b\<close> does not drop.
\<close>

lemma collect_raise_or_skip:
  "collect (\<lambda>r. and_then (b r) (Inl e)) rs acc =
     (case find (\<lambda>r. b r \<noteq> Inr False) rs of
        None \<Rightarrow> Inr acc
      | Some r \<Rightarrow> Inl (case b r of Inl e' \<Rightarrow> e' | Inr _ \<Rightarrow> e))"
proof (induction rs arbitrary: acc)
  case Nil
  show ?case by simp
next
  case (Cons r rs)
  show ?case
  proof (cases "b r")
    case (Inl e')
    then show ?thesis by (simp add: and_then_simps)
  next
    case (Inr c)
    then show ?thesis by (cases c) (simp_all add: and_then_simps Cons.IH)
  qed
qed

subsection \<open>The filters one by one\<close>

lemmas filter_defs = channel_filter_def date_filter_def user_filter_def
  text_filter_def replies_filter_def category_filter_def

lemma keep_message_no_filters:
  assumes "\<forall>k \<in> filter_keys. filters k = None"
  shows "keep_message lib filters msg = Inr True"
  using assms
  by (simp add: filter_keys_def keep_message_def filter_defs and_then_simps)

lemma category_filter_unknown:
  assumes "filters ''category'' = Some (PStr c)"
    and "str_lower lib c \<notin> {''intro'', ''ask'', ''discussion'', ''news'', ''session''}"
  shows "category_filter lib filters msg = Inr True"
  using assms by (simp add: category_filter_def category_map_def)

lemma drop_category_other:
  "channel_filter (filters(''category'' := None)) msg = channel_filter filters msg"
  "date_filter lib (filters(''category'' := None)) msg = date_filter lib filters msg"
  "user_filter lib (filters(''category'' := None)) msg = user_filter lib filters msg"
  "text_filter lib (filters(''category'' := None)) msg = text_filter lib filters msg"
  "replies_filter (filters(''category'' := None)) msg = replies_filter filters msg"
  "category_filter lib (filters(''category'' := None)) msg = Inr True"
  by (simp_all add: filter_defs cong: sum.case_cong)

lemma keep_message_drop_category:
  assumes "category_filter lib filters msg = Inr True"
  shows "keep_message lib filters msg = keep_message lib (filters(''category'' := None)) msg"
  unfolding keep_message_def by (simp only: drop_category_other assms)

lemma keep_message_has_replies:
  "keep_message lib [''has_replies'' \<mapsto> PBool b] msg = Inr (b = (get_or (reply_count msg) 0 > 0))"
  by (simp add: keep_message_def filter_defs and_then_simps and_then_True_right)

subsection \<open>Dates\<close>

lemma date_bound_naive:
  assumes "fromisoformat lib s = Inr (Naive b)"
  shows "date_bound lib True (PStr s) t = Inr (b \<le> t)"
    and "date_bound lib False (PStr s) t = Inr (t \<le> b)"
  using assms by (simp_all add: date_bound_def not_less)

lemma date_bound_error:
  assumes "fromisoformat_val lib v = Inl e"
  shows "date_bound lib lb v t = Inl e"
  using assms by (simp add: date_bound_def)

lemma date_filter_range:
  assumes conv: "ts_datetime lib (ts msg) = Inr t"
    and lo: "filters ''from_date'' = None \<or>
             (\<exists>s. filters ''from_date'' = Some (PStr s) \<and> fromisoformat lib s = Inr (Naive f))"
    and hi: "filters ''to_date'' = None \<or>
             (\<exists>s. filters ''to_date'' = Some (PStr s) \<and> fromisoformat lib s = Inr (Naive u))"
  shows "date_filter lib filters msg =
           Inr ((filters ''from_date'' \<noteq> None \<longrightarrow> f \<le> t) \<and>
                (filters ''to_date'' \<noteq> None \<longrightarrow> t \<le> u))"
proof -
  have a: "(case filters ''from_date'' of None \<Rightarrow> Inr True | Some v \<Rightarrow> date_bound lib True v t)
             = Inr (filters ''from_date'' \<noteq> None \<longrightarrow> f \<le> t)"
    using lo by (auto simp: date_bound_naive)
  have b: "(case filters ''to_date'' of None \<Rightarrow> Inr True | Some v \<Rightarrow> date_bound lib False v t)
             = Inr (filters ''to_date'' \<noteq> None \<longrightarrow> t \<le> u)"
    using hi by (auto simp: date_bound_naive)
  have "date_filter lib filters msg =
          (if filters ''from_date'' \<noteq> None \<or> filters ''to_date'' \<noteq> None
           then and_then (Inr (filters ''from_date'' \<noteq> None \<longrightarrow> f \<le> t))
                         (Inr (filters ''to_date'' \<noteq> None \<longrightarrow> t \<le> u))
           else Inr True)"
    by (simp only: date_filter_def conv sum.case a b)
  then show ?thesis
    by (cases "filters ''from_date'' \<noteq> None \<longrightarrow> f \<le> t") (auto simp: and_then_simps)
qed

lemma keep_message_dates_only:
  assumes "filters ''channel'' = None \<and> filters ''user'' = None \<and>
           filters ''search_text'' = None \<and> filters ''has_replies'' = None \<and>
           filters ''category'' = None"
  shows "keep_message lib filters msg = date_filter lib filters msg"
  using assms
  by (simp add: keep_message_def channel_filter_def user_filter_def text_filter_def
      replies_filter_def category_filter_def and_then_simps and_then_True_right)

lemma ts_datetime_missing: "ts_datetime lib None = ts_datetime lib (Some ''0'')"
  by (simp add: ts_datetime_def get_or_def)

text \<open>
  With no channel filter every message reaches the date check; there a bound that does
  not parse raises, unless the conversion of the message's own time stamp raised before.
\<close>

lemma keep_message_date_error:
  assumes "filters ''channel'' = None"
    and "filters ''from_date'' = Some v \<or>
         (filters ''from_date'' = None \<and> filters ''to_date'' = Some v)"
    and "fromisoformat_val lib v = Inl e"
  shows "keep_message lib filters msg =
           Inl (case ts_datetime lib (ts msg) of Inl e' \<Rightarrow> e' | Inr _ \<Rightarrow> e)"
  using assms
  by (auto simp: keep_message_def channel_filter_def date_filter_def and_then_simps
      date_bound_error split: sum.splits)

text \<open>
  When a bound does not parse, the loop body is what runs before the bound, followed by
  the raise of the parser.
\<close>

lemma keep_message_bad_bound:
  assumes "filters (bound_key upper) = Some v"
    and "fromisoformat_val lib v = Inl e"
  shows "keep_message lib filters msg = and_then (before_bound lib filters upper msg) (Inl e)"
proof (cases upper)
  case False
  then have v: "filters ''from_date'' = Some v" using assms(1) by (simp add: bound_key_def)
  show ?thesis
    using False
    by (cases "channel_filter filters msg"; cases "ts_datetime lib (ts msg)")
      (auto simp: keep_message_def date_filter_def before_bound_def and_then_def v
        date_bound_error [OF assms(2)] split: bool.splits)
next
  case True
  then have v: "filters ''to_date'' = Some v" using assms(1) by (simp add: bound_key_def)
  show ?thesis
    using True
    by (cases "channel_filter filters msg"; cases "ts_datetime lib (ts msg)")
      (auto simp: keep_message_def date_filter_def before_bound_def and_then_def v
        date_bound_error [OF assms(2)] split: bool.splits sum.splits option.splits)
qed

subsection \<open>Counting and sorting\<close>

lemma set_first_seen: "set (first_seen xs) = set xs"
  by (induction xs) auto

lemma distinct_first_seen: "distinct (first_seen xs)"
  by (induction xs) (auto simp: distinct_removeAll)

text \<open>
  The keys of the dictionary after the counting loop: the keys it started with, then the
  new channels in the order in which the loop first met them.
\<close>

lemma count_channels_keys:
  "map fst (count_channels msgs st) =
     map fst st @ filter (\<lambda>c. c \<notin> set (map fst st)) (first_seen (map stats_channel msgs))"
proof (induction msgs arbitrary: st)
  case Nil
  show ?case by simp
next
  case (Cons m ms)
  let ?c = "stats_channel m"
  let ?st = "AList.update ?c (get_or (map_of st ?c) 0 + 1) st"
  let ?fs = "first_seen (map stats_channel ms)"
  have step: "count_channels (m # ms) st = count_channels ms ?st"
    by (simp add: stats_channel_def Let_def)
  have ih: "map fst (count_channels ms ?st) =
              map fst ?st @ filter (\<lambda>c. c \<notin> set (map fst ?st)) ?fs"
    by (rule Cons.IH)
  show ?case
  proof (cases "?c \<in> set (map fst st)")
    case True
    then have keys: "map fst ?st = map fst st" by (simp add: update_keys)
    have "filter (\<lambda>c. c \<notin> set (map fst st)) (removeAll ?c ?fs) =
            filter (\<lambda>c. c \<notin> set (map fst st)) ?fs"
      using True by (auto simp: removeAll_filter_not_eq intro: filter_cong)
    then show ?thesis using True by (simp only: step ih keys) simp
  next
    case False
    then have keys: "map fst ?st = map fst st @ [?c]" by (simp add: update_keys)
    have "filter (\<lambda>c. c \<notin> set (map fst st @ [?c])) ?fs
            = filter (\<lambda>c. c \<notin> set (map fst st)) (removeAll ?c ?fs)"
      by (auto simp: removeAll_filter_not_eq intro: filter_cong)
    then show ?thesis using False by (simp only: step ih keys) simp
  qed
qed

text \<open>The value under a key after the counting loop.\<close>

lemma count_channels_lookup:
  "map_of (count_channels msgs st) c =
     (if count_list (map stats_channel msgs) c = 0 then map_of st c
      else Some (get_or (map_of st c) 0 + int (count_list (map stats_channel msgs) c)))"
proof (induction msgs arbitrary: st)
  case Nil
  show ?case by simp
next
  case (Cons m ms)
  let ?c = "stats_channel m"
  let ?st = "AList.update ?c (get_or (map_of st ?c) 0 + 1) st"
  have step: "count_channels (m # ms) st = count_channels ms ?st"
    by (simp add: stats_channel_def Let_def)
  show ?case
    unfolding step Cons.IH [of ?st]
    by (simp add: update_conv' get_or_def)
qed

lemma count_channels_empty_keys:
  "map fst (count_channels msgs []) = first_seen (map stats_channel msgs)"
  by (simp add: count_channels_keys)

lemma count_channels_empty_entry:
  assumes "(c, n) \<in> set (count_channels msgs [])"
  shows "n = int (count_list (map stats_channel msgs) c)"
proof -
  have "distinct (map fst (count_channels msgs []))"
    by (simp add: count_channels_empty_keys distinct_first_seen)
  then have "map_of (count_channels msgs []) c = Some n"
    using assms by simp
  then show ?thesis
    by (simp add: count_channels_lookup get_or_def split: if_splits)
qed

lemma sorted_reverse_descending:
  "sorted_wrt (\<lambda>p q. key q \<le> key p) (sorted_reverse key xs)"
proof -
  have "sorted (map (\<lambda>x. - key x) (sorted_reverse key xs))"
    unfolding sorted_reverse_def by (rule sorted_sort_key)
  then show ?thesis by (simp add: sorted_map)
qed

lemma sorted_reverse_stable:
  "filter (\<lambda>x. key x = k) (sorted_reverse key xs) = filter (\<lambda>x. key x = k) xs"
  using sort_key_stable [of "\<lambda>x. - key x" "- k" xs]
  by (simp add: sorted_reverse_def)

lemma set_sorted_reverse: "set (sorted_reverse key xs) = set xs"
  by (simp add: sorted_reverse_def)

lemma distinct_map_sorted_reverse:
  "distinct (map g (sorted_reverse key xs)) = distinct (map g xs)"
proof -
  have "mset (map g (sorted_reverse key xs)) = mset (map g xs)"
    by (simp add: sorted_reverse_def)
  then show ?thesis by (rule mset_eq_imp_distinct_iff)
qed

subsection \<open>Running the model\<close>

lemmas run_defs =
  query_messages_def keep_message_def channel_filter_def date_filter_def user_filter_def
  text_filter_def replies_filter_def category_filter_def category_map_def and_then_def
  date_bound_def ts_datetime_def get_or_def lower_contains_def utc_lib_def ascii_lower_def
  ascii_lower_char_def

lemmas utc_defs =
  utc_lib_def utc_float_def utc_fromtimestamp_def utc_fromisoformat_def parse_nat_def
  digit_of_def days_in_month_def is_leap_def days_from_civil_def

lemmas example_defs =
  msg_a_def msg_b_def msg_c_def member_x_def example_data_def msg_c_only_def
  no_filters_def bogus_category_def from_1960_def to_1960_def january_first_to_second_def
  channel_random_def channel_random_bad_from_def bad_from_def channel_discussion_def
  limit_minus_one_def limit_two_def repeated_data_def discussion_bad_from_def
  from_second_bad_to_def

section \<open>The claims\<close>

subsection \<open>C1: an unknown category\<close>

text \<open>
  Claim C1, as the code has it: a category that is a string and whose lower-case form,
  as \<^verbatim>\<open>str.lower()\<close> gives it, is not one of \<^verbatim>\<open>intro\<close>, \<^verbatim>\<open>ask\<close>, \<^verbatim>\<open>discussion\<close>,
  \<^verbatim>\<open>news\<close>, \<^verbatim>\<open>session\<close> puts no constraint on the messages and raises nothing:
  \<^verbatim>\<open>query_messages\<close> answers exactly as it does for the same request without the
  category.
\<close>

theorem unknown_category_ignored:
  assumes "filters ''category'' = Some (PStr c)"
    and "str_lower lib c \<notin> {''intro'', ''ask'', ''discussion'', ''news'', ''session''}"
  shows "query_messages lib data filters =
           query_messages lib data (filters(''category'' := None))"
proof -
  have "keep_message lib filters msg = keep_message lib (filters(''category'' := None)) msg"
    for msg
    by (rule keep_message_drop_category)
      (rule category_filter_unknown, rule assms(1), rule assms(2))
  then show ?thesis
    by (simp add: query_messages_def cong: collect_cong)
qed

text \<open>The category \<^verbatim>\<open>Bogus\<close> on the example data.\<close>

theorem unknown_category_ignored_witness:
  "bogus_category ''category'' = Some (PStr ''Bogus'')
   \<and> str_lower utc_lib ''Bogus'' = ''bogus''
   \<and> query_messages utc_lib example_data bogus_category =
       query_messages utc_lib example_data (bogus_category(''category'' := None))"
proof -
  have h1: "bogus_category ''category'' = Some (PStr ''Bogus'')"
    by (simp add: bogus_category_def)
  have low: "str_lower utc_lib ''Bogus'' = ''bogus''"
    by (simp add: utc_lib_def ascii_lower_def ascii_lower_char_def)
  have h2: "str_lower utc_lib ''Bogus''
              \<notin> {''intro'', ''ask'', ''discussion'', ''news'', ''session''}"
    by (simp add: low)
  show ?thesis
    using unknown_category_ignored
        [where filters = bogus_category and c = "''Bogus''" and lib = utc_lib
           and data = example_data, OF h1 h2] h1 low
    by simp
qed

text \<open>
  Claim C1 as stated asks for an error. On the example data the request with the
  category \<^verbatim>\<open>Bogus\<close> returns all three messages.
\<close>

theorem unknown_category_counterexample:
  "query_messages utc_lib example_data bogus_category = Inr [msg_a, msg_b, msg_c]"
  by (simp add: run_defs example_data_def bogus_category_def)

subsection \<open>C2: no filter at all\<close>

text \<open>
  Claim C2: when none of the seven filters is present, \<^verbatim>\<open>query_messages\<close> returns the
  dataset's \<^verbatim>\<open>all_messages\<close> as it is, the same messages in the same order (the empty
  list when the dataset has no such field).
\<close>

theorem query_messages_no_filters:
  assumes "\<forall>k \<in> filter_keys. filters k = None"
  shows "query_messages lib data filters = Inr (get_or (all_messages data) [])"
proof -
  have "collect (keep_message lib filters) ms [] = Inr ([] @ filter (\<lambda>_. True) ms)" for ms
    by (rule collect_total) (simp add: keep_message_no_filters [OF assms])
  then show ?thesis by (simp add: query_messages_def)
qed

theorem query_messages_no_filters_witness:
  "no_filters ''channel'' = None \<and> no_filters ''from_date'' = None
   \<and> no_filters ''to_date'' = None \<and> no_filters ''user'' = None
   \<and> no_filters ''search_text'' = None \<and> no_filters ''has_replies'' = None
   \<and> no_filters ''category'' = None
   \<and> query_messages utc_lib example_data no_filters = Inr [msg_a, msg_b, msg_c]"
proof -
  have h: "\<forall>k \<in> filter_keys. no_filters k = None"
    by (simp add: no_filters_def)
  show ?thesis
    using query_messages_no_filters [OF h, of utc_lib example_data]
    by (simp add: no_filters_def example_data_def get_or_def)
qed

subsection \<open>C5: messages with and without replies\<close>

text \<open>
  Claim C5: with \<^verbatim>\<open>has_replies\<close> as the only filter, the value \<^verbatim>\<open>true\<close> returns exactly
  the messages whose \<^verbatim>\<open>reply_count\<close> (0 when missing) is greater than 0, in their
  order, and \<^verbatim>\<open>false\<close> returns exactly the other messages; when no count is negative,
  as the data model has it, these are the messages whose count is 0.
\<close>

theorem has_replies_filter:
  fixes data :: dataset
  defines "msgs \<equiv> get_or (all_messages data) []"
  shows "query_messages lib data [''has_replies'' \<mapsto> PBool True]
           = Inr (filter (\<lambda>m. get_or (reply_count m) 0 > 0) msgs)
       \<and> query_messages lib data [''has_replies'' \<mapsto> PBool False]
           = Inr (filter (\<lambda>m. \<not> get_or (reply_count m) 0 > 0) msgs)
       \<and> ((\<forall>m \<in> set msgs. 0 \<le> get_or (reply_count m) 0) \<longrightarrow>
            query_messages lib data [''has_replies'' \<mapsto> PBool False]
              = Inr (filter (\<lambda>m. get_or (reply_count m) 0 = 0) msgs))"
proof -
  have gen: "query_messages lib data [''has_replies'' \<mapsto> PBool b]
               = Inr (filter (\<lambda>m. b = (get_or (reply_count m) 0 > 0)) msgs)" for b
    using collect_total [of msgs "keep_message lib [''has_replies'' \<mapsto> PBool b]"
        "\<lambda>m. b = (get_or (reply_count m) 0 > 0)" "[]"]
    by (simp add: query_messages_def msgs_def keep_message_has_replies)
  have zero: "filter (\<lambda>m. \<not> get_or (reply_count m) 0 > 0) msgs
                = filter (\<lambda>m. get_or (reply_count m) 0 = 0) msgs"
    if "\<forall>m \<in> set msgs. 0 \<le> get_or (reply_count m) 0"
    using that by (intro filter_cong) auto
  show ?thesis using gen [of True] gen [of False] zero by simp
qed

text \<open>On the example data only the first message has replies.\<close>

theorem has_replies_filter_witness:
  "0 \<le> get_or (reply_count msg_a) 0 \<and> 0 \<le> get_or (reply_count msg_b) 0
   \<and> 0 \<le> get_or (reply_count msg_c) 0
   \<and> query_messages utc_lib example_data [''has_replies'' \<mapsto> PBool True] = Inr [msg_a]
   \<and> query_messages utc_lib example_data [''has_replies'' \<mapsto> PBool False]
       = Inr [msg_b, msg_c]"
proof -
  have counts: "get_or (reply_count msg_a) 0 = 2" "get_or (reply_count msg_b) 0 = 0"
    "get_or (reply_count msg_c) 0 = 0"
    by (simp_all add: get_or_def msg_a_def msg_b_def msg_c_def)
  have msgs: "get_or (all_messages example_data) [] = [msg_a, msg_b, msg_c]"
    by (simp add: get_or_def example_data_def)
  show ?thesis
    using has_replies_filter [of utc_lib example_data]
    by (simp add: msgs counts)
qed

subsection \<open>C6: the result is a subsequence\<close>

text \<open>
  Claim C6: whenever \<^verbatim>\<open>query_messages\<close> returns, what it returns is \<^verbatim>\<open>all_messages\<close>
  with the messages that the loop body does not keep left out, and nothing else changed.
  So the result is a subsequence of \<^verbatim>\<open>all_messages\<close>, the messages it keeps standing in
  their original order; and a message of the result occurs in it exactly as often as in
  \<^verbatim>\<open>all_messages\<close>: nothing is reordered, dropped as a duplicate, or repeated.
\<close>

theorem query_messages_is_filter:
  assumes "query_messages lib data filters = Inr found"
  shows "found = filter (\<lambda>m. keep_message lib filters m = Inr True)
                   (get_or (all_messages data) [])
       \<and> subseq found (get_or (all_messages data) [])
       \<and> (\<forall>m \<in> set found. count_list found m = count_list (get_or (all_messages data) []) m)"
proof -
  let ?msgs = "get_or (all_messages data) []"
  have "collect (keep_message lib filters) ?msgs [] = Inr found"
    using assms by (simp add: query_messages_def)
  then have eq: "found = filter (\<lambda>m. keep_message lib filters m = Inr True) ?msgs"
    using collect_is_filter by fastforce
  have "subseq (filter (\<lambda>m. keep_message lib filters m = Inr True) ?msgs) ?msgs"
    by (rule subseq_filter_left)
  moreover have "count_list found m = count_list ?msgs m" if "m \<in> set found" for m
    using that by (simp add: eq count_list_filter)
  ultimately show ?thesis using eq by blast
qed

text \<open>
  A dataset in which the first message comes again after the second. The channel filter
  \<^verbatim>\<open>discussion\<close> drops the second message and keeps both copies of the first.
\<close>

theorem query_messages_is_filter_witness:
  "query_messages utc_lib repeated_data channel_discussion = Inr [msg_a, msg_a]
   \<and> get_or (all_messages repeated_data) [] = [msg_a, msg_b, msg_a]
   \<and> subseq [msg_a, msg_a] [msg_a, msg_b, msg_a]
   \<and> count_list [msg_a, msg_a] msg_a = 2
   \<and> count_list [msg_a, msg_b, msg_a] msg_a = 2"
proof -
  have q: "query_messages utc_lib repeated_data channel_discussion = Inr [msg_a, msg_a]"
    by (simp add: run_defs example_defs)
  have msgs: "get_or (all_messages repeated_data) [] = [msg_a, msg_b, msg_a]"
    by (simp add: get_or_def repeated_data_def)
  have ne: "msg_b \<noteq> msg_a"
    by (simp add: msg_a_def msg_b_def)
  have "count_list [msg_a, msg_a] msg_a = 2"
    by simp
  then show ?thesis
    using query_messages_is_filter [OF q] q msgs ne by simp
qed

subsection \<open>C3: the date range is inclusive\<close>

text \<open>
  Claim C3: the date range is inclusive at both ends. When the bounds present are date
  strings that parse to naive date-times \<open>f\<close> (for \<^verbatim>\<open>from_date\<close>) and \<open>u\<close> (for
  \<^verbatim>\<open>to_date\<close>), no other filter is present, and the time stamp of every message
  converts to a local date-time \<open>t m\<close>, then \<^verbatim>\<open>query_messages\<close> keeps exactly the
  messages with \<open>f \<le> t m\<close> and \<open>t m \<le> u\<close>: a message exactly at a bound is kept, one
  strictly before \<open>f\<close> or strictly after \<open>u\<close> is dropped.
\<close>

theorem date_range_inclusive:
  fixes t :: "message \<Rightarrow> 'a::linorder"
  assumes others: "filters ''channel'' = None \<and> filters ''user'' = None \<and>
                   filters ''search_text'' = None \<and> filters ''has_replies'' = None \<and>
                   filters ''category'' = None"
    and lo: "filters ''from_date'' = None \<or>
             (\<exists>s. filters ''from_date'' = Some (PStr s) \<and> fromisoformat lib s = Inr (Naive f))"
    and hi: "filters ''to_date'' = None \<or>
             (\<exists>s. filters ''to_date'' = Some (PStr s) \<and> fromisoformat lib s = Inr (Naive u))"
    and conv: "\<forall>m \<in> set (get_or (all_messages data) []). ts_datetime lib (ts m) = Inr (t m)"
  shows "query_messages lib data filters =
           Inr (filter (\<lambda>m. (filters ''from_date'' \<noteq> None \<longrightarrow> f \<le> t m) \<and>
                            (filters ''to_date'' \<noteq> None \<longrightarrow> t m \<le> u))
                  (get_or (all_messages data) []))"
proof -
  let ?P = "\<lambda>m. (filters ''from_date'' \<noteq> None \<longrightarrow> f \<le> t m) \<and>
                 (filters ''to_date'' \<noteq> None \<longrightarrow> t m \<le> u)"
  have "keep_message lib filters m = Inr (?P m)" if "m \<in> set (get_or (all_messages data) [])"
    for m
  proof -
    have "ts_datetime lib (ts m) = Inr (t m)" using conv that by blast
    then show ?thesis
      by (simp only: keep_message_dates_only [OF others] date_filter_range [OF _ lo hi])
  qed
  then have "collect (keep_message lib filters) (get_or (all_messages data) []) []
               = Inr ([] @ filter ?P (get_or (all_messages data) []))"
    by (rule collect_total)
  then show ?thesis by (simp add: query_messages_def)
qed

text \<open>
  On the example data, with the range from 2024-01-01 to 2024-01-02: the first message is
  exactly at the lower bound and the second exactly at the upper bound, and both are kept;
  the third, at 1970-01-01, is before the lower bound and is dropped.
\<close>

theorem date_range_inclusive_witness:
  "january_first_to_second ''channel'' = None \<and> january_first_to_second ''user'' = None
   \<and> january_first_to_second ''search_text'' = None
   \<and> january_first_to_second ''has_replies'' = None
   \<and> january_first_to_second ''category'' = None
   \<and> january_first_to_second ''from_date'' = Some (PStr ''2024-01-01'')
   \<and> fromisoformat utc_lib ''2024-01-01'' = Inr (Naive 1704067200000000)
   \<and> january_first_to_second ''to_date'' = Some (PStr ''2024-01-02'')
   \<and> fromisoformat utc_lib ''2024-01-02'' = Inr (Naive 1704153600000000)
   \<and> ts_datetime utc_lib (ts msg_a) = Inr 1704067200000000
   \<and> ts_datetime utc_lib (ts msg_b) = Inr 1704153600000000
   \<and> ts_datetime utc_lib (ts msg_c) = Inr 0
   \<and> query_messages utc_lib example_data january_first_to_second = Inr [msg_a, msg_b]"
proof -
  have keys: "january_first_to_second ''channel'' = None"
    "january_first_to_second ''user'' = None"
    "january_first_to_second ''search_text'' = None"
    "january_first_to_second ''has_replies'' = None"
    "january_first_to_second ''category'' = None"
    "january_first_to_second ''from_date'' = Some (PStr ''2024-01-01'')"
    "january_first_to_second ''to_date'' = Some (PStr ''2024-01-02'')"
    by (simp_all add: january_first_to_second_def)
  have iso: "fromisoformat utc_lib ''2024-01-01'' = Inr (Naive 1704067200000000)"
    "fromisoformat utc_lib ''2024-01-02'' = Inr (Naive 1704153600000000)"
    by (simp_all add: utc_defs)
  have times: "ts_datetime utc_lib (ts msg_a) = Inr 1704067200000000"
    "ts_datetime utc_lib (ts msg_b) = Inr 1704153600000000"
    "ts_datetime utc_lib (ts msg_c) = Inr 0"
    by (simp_all add: ts_datetime_def get_or_def utc_defs msg_a_def msg_b_def msg_c_def)
  have msgs: "get_or (all_messages example_data) [] = [msg_a, msg_b, msg_c]"
    by (simp add: get_or_def example_data_def)
  have others: "january_first_to_second ''channel'' = None \<and>
                january_first_to_second ''user'' = None \<and>
                january_first_to_second ''search_text'' = None \<and>
                january_first_to_second ''has_replies'' = None \<and>
                january_first_to_second ''category'' = None"
    by (simp add: keys)
  have lo: "january_first_to_second ''from_date'' = None \<or>
            (\<exists>s. january_first_to_second ''from_date'' = Some (PStr s) \<and>
                 fromisoformat utc_lib s = Inr (Naive 1704067200000000))"
    by (simp add: keys iso)
  have hi: "january_first_to_second ''to_date'' = None \<or>
            (\<exists>s. january_first_to_second ''to_date'' = Some (PStr s) \<and>
                 fromisoformat utc_lib s = Inr (Naive 1704153600000000))"
    by (simp add: keys iso)
  have conv: "\<forall>m \<in> set (get_or (all_messages example_data) []).
                ts_datetime utc_lib (ts m) = Inr (utc_time m)"
    by (simp add: msgs utc_time_def times)
  have ut: "utc_time msg_a = 1704067200000000" "utc_time msg_b = 1704153600000000"
    "utc_time msg_c = 0"
    by (simp_all add: utc_time_def times)
  show ?thesis
    using date_range_inclusive [OF others lo hi conv]
    by (simp add: keys iso times msgs ut)
qed

subsection \<open>C4: a record without a time stamp\<close>

text \<open>
  Claim C4, as the code has it: a message or member whose \<^verbatim>\<open>ts\<close> is missing is treated
  by the date filtering of \<^verbatim>\<open>query_messages\<close> and \<^verbatim>\<open>get_new_members\<close> exactly as one
  whose \<^verbatim>\<open>ts\<close> is \<^verbatim>\<open>"0"\<close>, so the missing field itself raises nothing. Where epoch 0
  converts to the local date-time \<open>e\<close> and a bound parses to the naive date-time \<open>b\<close>,
  the record passes the bound as a lower bound exactly when \<open>b \<le> e\<close> and as an upper
  bound exactly when \<open>e \<le> b\<close>: it fails the lower bounds later than epoch 0 and
  satisfies the upper bounds not earlier than epoch 0.
\<close>

theorem missing_ts_is_epoch:
  assumes "ts msg = None" and "member_ts mem = None"
  shows "date_filter lib filters msg = date_filter lib filters (msg\<lparr>ts := Some ''0''\<rparr>)
       \<and> keep_member lib from_date to_date mem
           = keep_member lib from_date to_date (mem\<lparr>member_ts := Some ''0''\<rparr>)
       \<and> (\<forall>z e s b. py_float lib ''0'' = Inr z \<and> fromtimestamp lib z = Inr e \<and>
              fromisoformat lib s = Inr (Naive b) \<and> s \<noteq> [] \<longrightarrow>
            date_filter lib [''from_date'' \<mapsto> PStr s] msg = Inr (b \<le> e) \<and>
            date_filter lib [''to_date'' \<mapsto> PStr s] msg = Inr (e \<le> b) \<and>
            keep_member lib (PStr s) PNone mem = Inr (b \<le> e) \<and>
            keep_member lib PNone (PStr s) mem = Inr (e \<le> b))"
proof (intro conjI allI impI)
  show "date_filter lib filters msg = date_filter lib filters (msg\<lparr>ts := Some ''0''\<rparr>)"
    using assms(1) by (simp add: date_filter_def ts_datetime_missing)
  show "keep_member lib from_date to_date mem
          = keep_member lib from_date to_date (mem\<lparr>member_ts := Some ''0''\<rparr>)"
    using assms(2) by (simp add: keep_member_def ts_datetime_missing)
next
  fix z e s b
  assume h: "py_float lib ''0'' = Inr z \<and> fromtimestamp lib z = Inr e \<and>
             fromisoformat lib s = Inr (Naive b) \<and> s \<noteq> []"
  then have iso: "fromisoformat lib s = Inr (Naive b)" and ne: "s \<noteq> []" by simp_all
  have m: "ts_datetime lib (ts msg) = Inr e" and x: "ts_datetime lib (member_ts mem) = Inr e"
    using h assms by (simp_all add: ts_datetime_def get_or_def)
  show "date_filter lib [''from_date'' \<mapsto> PStr s] msg = Inr (b \<le> e)"
    by (simp add: date_filter_def m date_bound_naive [OF iso] and_then_True_right)
  show "date_filter lib [''to_date'' \<mapsto> PStr s] msg = Inr (e \<le> b)"
    by (simp add: date_filter_def m date_bound_naive [OF iso] and_then_simps)
  show "keep_member lib (PStr s) PNone mem = Inr (b \<le> e)"
    by (simp add: keep_member_def x ne date_bound_naive [OF iso] and_then_True_right)
  show "keep_member lib PNone (PStr s) mem = Inr (e \<le> b)"
    by (simp add: keep_member_def x ne date_bound_naive [OF iso] and_then_simps)
qed

text \<open>
  The third example message and the example member have no time stamp. Against the date
  1960-01-01, which is before epoch 0, they pass as a lower bound and fail as an upper
  bound.
\<close>

theorem missing_ts_is_epoch_witness:
  "ts msg_c = None \<and> member_ts member_x = None
   \<and> py_float utc_lib ''0'' = Inr 0 \<and> fromtimestamp utc_lib 0 = Inr 0
   \<and> fromisoformat utc_lib ''1960-01-01'' = Inr (Naive (- 315619200000000))
   \<and> date_filter utc_lib from_1960 msg_c = Inr True
   \<and> date_filter utc_lib to_1960 msg_c = Inr False
   \<and> keep_member utc_lib (PStr ''1960-01-01'') PNone member_x = Inr True
   \<and> keep_member utc_lib PNone (PStr ''1960-01-01'') member_x = Inr False"
proof -
  have h1: "ts msg_c = None" by (simp add: msg_c_def)
  have h2: "member_ts member_x = None" by (simp add: member_x_def)
  have lib0: "py_float utc_lib ''0'' = Inr 0" "fromtimestamp utc_lib 0 = Inr 0"
    "fromisoformat utc_lib ''1960-01-01'' = Inr (Naive (- 315619200000000))"
    by (simp_all add: utc_defs)
  have "py_float utc_lib ''0'' = Inr 0 \<and> fromtimestamp utc_lib 0 = Inr 0 \<and>
          fromisoformat utc_lib ''1960-01-01'' = Inr (Naive (- 315619200000000)) \<and>
          ''1960-01-01'' \<noteq> [] \<longrightarrow>
        date_filter utc_lib [''from_date'' \<mapsto> PStr ''1960-01-01''] msg_c
          = Inr (- 315619200000000 \<le> (0::int)) \<and>
        date_filter utc_lib [''to_date'' \<mapsto> PStr ''1960-01-01''] msg_c
          = Inr ((0::int) \<le> - 315619200000000) \<and>
        keep_member utc_lib (PStr ''1960-01-01'') PNone member_x
          = Inr (- 315619200000000 \<le> (0::int)) \<and>
        keep_member utc_lib PNone (PStr ''1960-01-01'') member_x
          = Inr ((0::int) \<le> - 315619200000000)"
    using missing_ts_is_epoch [OF h1 h2, of utc_lib] by blast
  then show ?thesis
    by (simp add: h1 h2 lib0 from_1960_def to_1960_def)
qed

text \<open>
  Claim C4 as stated lets the record fail every lower bound and satisfy every upper
  bound. The message without a time stamp is kept under the lower bound 1960-01-01 and
  dropped under the upper bound 1960-01-01, and so is the member without a time stamp.
\<close>

theorem missing_ts_counterexample:
  "query_messages utc_lib msg_c_only from_1960 = Inr [msg_c]
   \<and> query_messages utc_lib msg_c_only to_1960 = Inr []
   \<and> get_new_members utc_lib example_data (PStr ''1960-01-01'') PNone = Inr [member_x]
   \<and> get_new_members utc_lib example_data PNone (PStr ''1960-01-01'') = Inr []"
  by (simp add: run_defs utc_defs get_new_members_def keep_member_def msg_c_def msg_c_only_def
      from_1960_def to_1960_def member_x_def example_data_def)

subsection \<open>C7: channel statistics\<close>

text \<open>
  Claim C7: the statistics count the messages by channel, a message without
  \<^verbatim>\<open>channel_name\<close> under \<^verbatim>\<open>unknown\<close>, and list the pairs of channel and count by
  descending count, channels of equal count in the order of their first occurrence in the
  input. In full: the counts never increase along the result; every channel of the input
  occurs exactly once; each is paired with the number of its messages; and for every count
  \<open>n\<close> the channels listed with \<open>n\<close> are the channels that have \<open>n\<close> messages, in the
  order in which they are first seen. Three messages in the channels a, b, a give
  \<open>[(a, 2), (b, 1)]\<close>.
\<close>

theorem channel_stats_grouped_sorted:
  fixes msgs :: "message list"
  defines "cs \<equiv> map stats_channel msgs"
  shows "sorted_wrt (\<lambda>p q. snd q \<le> snd p) (channel_stats msgs)
       \<and> distinct (map fst (channel_stats msgs))
       \<and> set (map fst (channel_stats msgs)) = set cs
       \<and> (\<forall>(c, n) \<in> set (channel_stats msgs). n = int (count_list cs c))
       \<and> (\<forall>n. map fst (filter (\<lambda>p. snd p = n) (channel_stats msgs))
                = filter (\<lambda>c. int (count_list cs c) = n) (first_seen cs))
       \<and> channel_stats [m\<lparr>channel_name := Some ''a''\<rparr>, m\<lparr>channel_name := Some ''b''\<rparr>,
                         m\<lparr>channel_name := Some ''a''\<rparr>] = [(''a'', 2), (''b'', 1)]"
proof (intro conjI allI)
  let ?stats = "count_channels msgs []"
  have r: "channel_stats msgs = sorted_reverse snd ?stats"
    by (simp add: channel_stats_def)
  have keys: "map fst ?stats = first_seen cs"
    by (simp add: count_channels_empty_keys cs_def)
  have entry: "n = int (count_list cs c)" if "(c, n) \<in> set ?stats" for c n
    using count_channels_empty_entry [OF that] by (simp add: cs_def)
  show "sorted_wrt (\<lambda>p q. snd q \<le> snd p) (channel_stats msgs)"
    unfolding r by (rule sorted_reverse_descending)
  show "distinct (map fst (channel_stats msgs))"
    unfolding r by (simp add: distinct_map_sorted_reverse keys distinct_first_seen)
  have "set (map fst (channel_stats msgs)) = set (map fst ?stats)"
    by (simp add: r set_sorted_reverse)
  then show "set (map fst (channel_stats msgs)) = set cs"
    by (simp only: keys set_first_seen)
  show "\<forall>(c, n) \<in> set (channel_stats msgs). n = int (count_list cs c)"
    using entry by (auto simp: r set_sorted_reverse)
  show "channel_stats [m\<lparr>channel_name := Some ''a''\<rparr>, m\<lparr>channel_name := Some ''b''\<rparr>,
                       m\<lparr>channel_name := Some ''a''\<rparr>] = [(''a'', 2), (''b'', 1)]"
    by (simp add: channel_stats_def sorted_reverse_def get_or_def)
  fix n
  have "map fst (filter (\<lambda>p. snd p = n) (channel_stats msgs))
          = map fst (filter (\<lambda>p. snd p = n) ?stats)"
    by (simp only: r sorted_reverse_stable)
  also have "filter (\<lambda>p. snd p = n) ?stats = filter (\<lambda>p. int (count_list cs (fst p)) = n) ?stats"
    using entry by (intro filter_cong) auto
  also have "map fst \<dots> = filter (\<lambda>c. int (count_list cs c) = n) (map fst ?stats)"
    by (simp add: filter_map comp_def)
  finally show "map fst (filter (\<lambda>p. snd p = n) (channel_stats msgs))
          = filter (\<lambda>c. int (count_list cs c) = n) (first_seen cs)"
    by (simp only: keys)
qed

text \<open>
  Five messages: two in each of two channels and one without a channel. The two channels
  tie at 2 and stand in the order in which they are first seen.
\<close>

theorem channel_stats_grouped_sorted_witness:
  "channel_stats [msg_b, msg_a, msg_c\<lparr>channel_name := None\<rparr>, msg_c, msg_b]
     = [(''07-intros'', 2), (''02-discussion'', 2), (''unknown'', 1)]
   \<and> (''07-intros'', 2) \<in> set (channel_stats [msg_b, msg_a, msg_c\<lparr>channel_name := None\<rparr>, msg_c, msg_b])
   \<and> (2::int) = int (count_list
         (map stats_channel [msg_b, msg_a, msg_c\<lparr>channel_name := None\<rparr>, msg_c, msg_b])
         ''07-intros'')
   \<and> distinct (map fst (channel_stats [msg_b, msg_a, msg_c\<lparr>channel_name := None\<rparr>, msg_c, msg_b]))"
proof -
  have r: "channel_stats [msg_b, msg_a, msg_c\<lparr>channel_name := None\<rparr>, msg_c, msg_b]
             = [(''07-intros'', 2), (''02-discussion'', 2), (''unknown'', 1)]"
    by (simp add: channel_stats_def sorted_reverse_def get_or_def msg_a_def msg_b_def msg_c_def)
  have c: "map stats_channel [msg_b, msg_a, msg_c\<lparr>channel_name := None\<rparr>, msg_c, msg_b]
             = [''07-intros'', ''02-discussion'', ''unknown'', ''02-discussion'', ''07-intros'']"
    by (simp add: stats_channel_def get_or_def msg_a_def msg_b_def msg_c_def)
  show ?thesis
    using channel_stats_grouped_sorted
      [of "[msg_b, msg_a, msg_c\<lparr>channel_name := None\<rparr>, msg_c, msg_b]"]
    by (simp add: r c)
qed

subsection \<open>C8: the limit comes after the filters\<close>

text \<open>
  Claim C8, as the code has it: for a limit that is absent (then it is 50) or an integer
  that is not negative, the \<^verbatim>\<open>query_messages\<close> tool first filters the whole dataset and
  then cuts the result: it answers the projections of the first \<open>limit\<close> messages, in
  their order, of what \<^verbatim>\<open>query_messages\<close> returns for the arguments without the limit,
  and the filter's error if it raises.
\<close>

theorem limit_after_filtering:
  assumes "get_or (arguments ''limit'') (PInt 50) = PInt n" and "0 \<le> n"
    and "arguments ''data'' = None"
  shows "call_tool lib (Inr (Some data)) ''query_messages'' arguments =
           (case query_messages lib data (arguments(''limit'' := None)) of
              Inl e \<Rightarrow> Failed e
            | Inr found \<Rightarrow> Messages (map simplify (take (nat n) found)))"
  using assms by (simp add: call_tool_def split: sum.splits)

text \<open>Three messages match and the limit is 2: the first two are answered.\<close>

theorem limit_after_filtering_witness:
  "get_or (limit_two ''limit'') (PInt 50) = PInt 2 \<and> (0::int) \<le> 2
   \<and> limit_two ''data'' = None
   \<and> query_messages utc_lib example_data (limit_two(''limit'' := None))
       = Inr [msg_a, msg_b, msg_c]
   \<and> call_tool utc_lib (Inr (Some example_data)) ''query_messages'' limit_two
       = Messages [simplify msg_a, simplify msg_b]"
proof -
  have h1: "get_or (limit_two ''limit'') (PInt 50) = PInt 2"
    by (simp add: limit_two_def get_or_def)
  have h2: "(0::int) \<le> 2" by simp
  have h3: "limit_two ''data'' = None" by (simp add: limit_two_def)
  have q: "query_messages utc_lib example_data (limit_two(''limit'' := None))
             = Inr [msg_a, msg_b, msg_c]"
    by (simp add: run_defs example_data_def limit_two_def)
  show ?thesis
    using limit_after_filtering [OF h1 h2 h3, of utc_lib example_data]
    by (simp add: h1 h3 q)
qed

text \<open>
  Claim C8 as stated speaks of every limit. With the limit \<open>-1\<close> and three matching
  messages the tool answers two messages, which are not the first \<open>-1\<close> of the three.
\<close>

theorem limit_counterexample:
  "query_messages utc_lib example_data no_filters = Inr [msg_a, msg_b, msg_c]
   \<and> call_tool utc_lib (Inr (Some example_data)) ''query_messages'' limit_minus_one
       = Messages [simplify msg_a, simplify msg_b]
   \<and> take (nat (- 1)) [msg_a, msg_b, msg_c] = []"
  by (simp add: call_tool_def run_defs example_data_def limit_minus_one_def no_filters_def)

subsection \<open>C9: a date bound that does not parse\<close>

text \<open>
  Claim C9, as the code has it: when \<^verbatim>\<open>from_date\<close> or \<^verbatim>\<open>to_date\<close> is a string that the
  date parser rejects, \<^verbatim>\<open>query_messages\<close> raises unless every message is dropped before
  that bound is parsed, by the channel filter or, for \<^verbatim>\<open>to_date\<close>, by the lower bound.
  It raises at the first message that is not dropped before: the parser's error, unless
  the body raised for that message before the parse. When every message is dropped
  before, the bound is never parsed and the empty list is returned. In particular a
  request without a channel filter (and, for \<^verbatim>\<open>to_date\<close>, without \<^verbatim>\<open>from_date\<close>) raises
  on every dataset that has a message, at the first one.
\<close>

theorem malformed_date_raises:
  assumes "filters (bound_key upper) = Some (PStr s)"
    and "fromisoformat lib s = Inl e"
  shows "query_messages lib data filters =
           (case find (\<lambda>m. before_bound lib filters upper m \<noteq> Inr False)
                   (get_or (all_messages data) []) of
              None \<Rightarrow> Inr []
            | Some m \<Rightarrow>
                Inl (case before_bound lib filters upper m of Inl e' \<Rightarrow> e' | Inr _ \<Rightarrow> e))
       \<and> (\<forall>m ms. all_messages data = Some (m # ms) \<and> filters ''channel'' = None \<and>
                  (upper \<longrightarrow> filters ''from_date'' = None) \<longrightarrow>
            query_messages lib data filters =
              Inl (case ts_datetime lib (ts m) of Inl e' \<Rightarrow> e' | Inr _ \<Rightarrow> e))"
proof (intro conjI allI impI)
  have bad: "fromisoformat_val lib (PStr s) = Inl e"
    using assms(2) by simp
  have body: "keep_message lib filters =
                (\<lambda>m. and_then (before_bound lib filters upper m) (Inl e))"
    by (rule ext)
      (rule keep_message_bad_bound [where filters = filters and upper = upper, OF assms(1) bad])
  show "query_messages lib data filters =
           (case find (\<lambda>m. before_bound lib filters upper m \<noteq> Inr False)
                   (get_or (all_messages data) []) of
              None \<Rightarrow> Inr []
            | Some m \<Rightarrow>
                Inl (case before_bound lib filters upper m of Inl e' \<Rightarrow> e' | Inr _ \<Rightarrow> e))"
    by (simp only: query_messages_def Let_def body collect_raise_or_skip)
next
  fix m ms
  assume h: "all_messages data = Some (m # ms) \<and> filters ''channel'' = None \<and>
             (upper \<longrightarrow> filters ''from_date'' = None)"
  have key: "filters ''from_date'' = Some (PStr s) \<or>
             (filters ''from_date'' = None \<and> filters ''to_date'' = Some (PStr s))"
    using assms(1) h by (cases upper) (simp_all add: bound_key_def)
  have "keep_message lib filters m =
          Inl (case ts_datetime lib (ts m) of Inl e' \<Rightarrow> e' | Inr _ \<Rightarrow> e)"
    by (rule keep_message_date_error [where v = "PStr s"]) (use assms h key in simp_all)
  then show "query_messages lib data filters =
               Inl (case ts_datetime lib (ts m) of Inl e' \<Rightarrow> e' | Inr _ \<Rightarrow> e)"
    using h by (simp add: query_messages_def get_or_def)
qed

text \<open>
  On the example data: the channel filter \<^verbatim>\<open>discussion\<close> lets the first message through
  and the lower bound \<^verbatim>\<open>not-a-date\<close> raises \<^verbatim>\<open>ValueError\<close> there; with the lower bound
  2024-01-02 the first message is dropped before the upper bound \<^verbatim>\<open>not-a-date\<close> is
  parsed, and the second message raises.
\<close>

theorem malformed_date_raises_witness:
  "discussion_bad_from (bound_key False) = Some (PStr ''not-a-date'')
   \<and> from_second_bad_to (bound_key True) = Some (PStr ''not-a-date'')
   \<and> fromisoformat utc_lib ''not-a-date'' = Inl ValueError
   \<and> before_bound utc_lib discussion_bad_from False msg_a = Inr True
   \<and> query_messages utc_lib example_data discussion_bad_from = Inl ValueError
   \<and> before_bound utc_lib from_second_bad_to True msg_a = Inr False
   \<and> before_bound utc_lib from_second_bad_to True msg_b = Inr True
   \<and> query_messages utc_lib example_data from_second_bad_to = Inl ValueError"
proof -
  have k1: "discussion_bad_from (bound_key False) = Some (PStr ''not-a-date'')"
    by (simp add: discussion_bad_from_def bound_key_def)
  have k2: "from_second_bad_to (bound_key True) = Some (PStr ''not-a-date'')"
    by (simp add: from_second_bad_to_def bound_key_def)
  have bad: "fromisoformat utc_lib ''not-a-date'' = Inl ValueError"
    by (simp add: utc_defs)
  have msgs: "get_or (all_messages example_data) [] = [msg_a, msg_b, msg_c]"
    by (simp add: get_or_def example_data_def)
  have b1: "before_bound utc_lib discussion_bad_from False msg_a = Inr True"
    by (simp add: before_bound_def run_defs utc_defs msg_a_def discussion_bad_from_def)
  have b2: "before_bound utc_lib from_second_bad_to True msg_a = Inr False"
    by (simp add: before_bound_def run_defs utc_defs msg_a_def from_second_bad_to_def)
  have b3: "before_bound utc_lib from_second_bad_to True msg_b = Inr True"
    by (simp add: before_bound_def run_defs utc_defs msg_b_def from_second_bad_to_def)
  have q1: "query_messages utc_lib example_data discussion_bad_from = Inl ValueError"
    using malformed_date_raises
        [where filters = discussion_bad_from and upper = False and data = example_data,
          OF k1 bad]
    by (simp add: msgs b1)
  have q2: "query_messages utc_lib example_data from_second_bad_to = Inl ValueError"
    using malformed_date_raises
        [where filters = from_second_bad_to and upper = True and data = example_data,
          OF k2 bad]
    by (simp add: msgs b2 b3)
  show ?thesis
    by (simp only: k1 k2 bad b1 b2 b3 q1 q2 simp_thms)
qed

text \<open>
  Claim C9 as stated lets every request with a malformed bound raise. When the channel
  filter drops every message the bound is never parsed: the request returns the empty
  list, as the same request without the bound does.
\<close>

theorem malformed_date_counterexample:
  "fromisoformat utc_lib ''not-a-date'' = Inl ValueError
   \<and> query_messages utc_lib example_data channel_random_bad_from = Inr []
   \<and> query_messages utc_lib example_data channel_random = Inr []"
  by (simp add: run_defs utc_defs msg_a_def msg_b_def msg_c_def example_data_def
      channel_random_bad_from_def channel_random_def)

subsection \<open>C10: channel statistics without dates\<close>

text \<open>
  Claim C10: on a dataset with at least one message, the \<^verbatim>\<open>get_channel_stats\<close> tool
  called without \<^verbatim>\<open>from_date\<close> and without \<^verbatim>\<open>to_date\<close> answers an error and no
  statistics. The dispatcher passes both bounds as \<^verbatim>\<open>None\<close>, the filter finds both keys
  present, and at the first message the date parser raises \<^verbatim>\<open>TypeError\<close> on \<^verbatim>\<open>None\<close>,
  unless the conversion of that message's time stamp has raised before.
\<close>

theorem channel_stats_without_dates_fails:
  assumes "arguments ''from_date'' = None" and "arguments ''to_date'' = None"
    and "all_messages data = Some (m # ms)"
  shows "call_tool lib (Inr (Some data)) ''get_channel_stats'' arguments =
           Failed (case ts_datetime lib (ts m) of Inl e \<Rightarrow> e | Inr _ \<Rightarrow> TypeError)"
proof -
  let ?f = "[''from_date'' \<mapsto> PNone, ''to_date'' \<mapsto> PNone]"
  have "keep_message lib ?f m =
          Inl (case ts_datetime lib (ts m) of Inl e' \<Rightarrow> e' | Inr _ \<Rightarrow> TypeError)"
    by (rule keep_message_date_error [where v = PNone]) simp_all
  then have "query_messages lib data ?f =
          Inl (case ts_datetime lib (ts m) of Inl e' \<Rightarrow> e' | Inr _ \<Rightarrow> TypeError)"
    by (simp add: query_messages_def assms(3) get_or_def)
  then show ?thesis
    by (simp add: call_tool_def assms(1,2) get_or_def)
qed

theorem channel_stats_without_dates_fails_witness:
  "no_filters ''from_date'' = None \<and> no_filters ''to_date'' = None
   \<and> all_messages example_data = Some (msg_a # [msg_b, msg_c])
   \<and> ts_datetime utc_lib (ts msg_a) = Inr 1704067200000000
   \<and> call_tool utc_lib (Inr (Some example_data)) ''get_channel_stats'' no_filters
       = Failed TypeError"
proof -
  have h1: "no_filters ''from_date'' = None" and h2: "no_filters ''to_date'' = None"
    by (simp_all add: no_filters_def)
  have h3: "all_messages example_data = Some (msg_a # [msg_b, msg_c])"
    by (simp add: example_data_def)
  have t: "ts_datetime utc_lib (ts msg_a) = Inr 1704067200000000"
    by (simp add: ts_datetime_def get_or_def utc_defs msg_a_def)
  show ?thesis
    using channel_stats_without_dates_fails [OF h1 h2 h3, of utc_lib]
    by (simp add: h1 h2 h3 t)
qed

end
